theory Spec2Isabelle
  imports Complex_Main "HOL-Library.Sublist"
begin

section \<open>Geofence event tracker: data model\<close>

text \<open>
  The service of \<^verbatim>\<open>main.py\<close> keeps two module-level variables, a dictionary from
  vehicle ids to the last known status and a list of zone events, and answers location
  updates by comparing the zone of the new point with the zone stored for the vehicle.

  Conventions of the embedding.
  \<^item> A Python \<^verbatim>\<open>float\<close> is a \<^typ>\<open>real\<close>: rounding, infinities and NaN are not
    represented. Every statement about distances below is a statement about the formula
    of the source evaluated in exact arithmetic. In doubles the source departs from it in
    two ways. A distance within rounding of a radius can fall on the other side of the
    comparison. And for nearly antipodal points the sum \<open>a\<close> of the haversine formula
    can round above 1: then \<^verbatim>\<open>math.sqrt(1 - a)\<close> raises \<^verbatim>\<open>ValueError\<close>, the
    resolver raises with it, and \<^verbatim>\<open>ingest_location\<close> is aborted before it appends
    an event or writes the status. At latitude -12.9955996 and longitude -102.3000012 the
    doubles give \<open>a = 1.0000000000000002\<close> against the third zone. The embedding has no
    such run: what it proves of an update is proved of the updates on which the distance
    computation of the source returns. An aborted update writes nothing and logs nothing,
    so the statements that something is left unchanged hold of it too; the statements
    that an update resolves a zone, generates events or stores a status do not.
  \<^item> A \<^verbatim>\<open>datetime\<close> is only stored and copied by the code, never inspected;
    it is an integer here (a count of microseconds, say).
  \<^item> \<^verbatim>\<open>Optional[str]\<close> is \<^typ>\<open>string option\<close>, a pydantic model is a record,
    the dictionary is a map and the log is a list.
  \<^item> A handler is a function from its arguments and the state of the two module-level
    variables to its answer and the state afterwards.
  Field names that occur in several pydantic models carry the initials of their model.
\<close>

type_synonym datetime = int

record LocationEvent =
  le_vehicleId :: string
  latitude :: real
  longitude :: real
  le_timestamp :: datetime

record GeofenceZone =
  zone_id :: string
  center_lat :: real
  center_lng :: real
  radius_m :: real

record VehicleStatus =
  vs_vehicleId :: string
  currentZone :: "string option"
  lastLatitude :: real
  lastLongitude :: real
  lastUpdated :: datetime

record ZoneEvent =
  eventType :: string
  vehicleId :: string
  zoneId :: string
  timestamp :: datetime
  fromZone :: "string option"
  toZone :: "string option"

record LocationResponse =
  status :: VehicleStatus
  generatedEvents :: "ZoneEvent list"

text \<open>The only exception the handlers raise themselves: status code and detail.\<close>

datatype http_error = HTTPException nat string

subsection \<open>In-memory state\<close>

definition ZONES :: "GeofenceZone list" where
  "ZONES =
    [\<lparr>zone_id = ''airport'', center_lat = 12.9611, center_lng = 77.6387, radius_m = 3000\<rparr>,
     \<lparr>zone_id = ''downtown'', center_lat = 12.9716, center_lng = 77.5946, radius_m = 5000\<rparr>,
     \<lparr>zone_id = ''suburb'', center_lat = 12.9956, center_lng = 77.7000, radius_m = 4000\<rparr>]"

record state =
  VEHICLE_STATE :: "string \<rightharpoonup> VehicleStatus"
  EVENT_LOG :: "ZoneEvent list"

definition init_state :: state where
  "init_state = \<lparr>VEHICLE_STATE = Map.empty, EVENT_LOG = []\<rparr>"

section \<open>Geospatial helpers\<close>

text \<open>\<^verbatim>\<open>math.radians\<close> and \<^verbatim>\<open>math.atan2(y, x)\<close> of the Python library.\<close>

definition radians :: "real \<Rightarrow> real" where
  "radians x = x * (pi / 180)"

definition atan2 :: "real \<Rightarrow> real \<Rightarrow> real" where
  "atan2 y x =
    (if 0 < x then arctan (y / x)
     else if x < 0 then (if 0 \<le> y then arctan (y / x) + pi else arctan (y / x) - pi)
     else if 0 < y then pi / 2
     else if y < 0 then - (pi / 2)
     else 0)"

text \<open>
  The quantity \<open>a\<close> of the haversine formula, named apart because
  \<^verbatim>\<open>math.sqrt\<close> raises on a negative argument: \<open>haversine_a_range\<close> below shows
  that in exact arithmetic both of its arguments are non-negative. The error branch of
  the source is reached through rounding only and is not part of this definition.
\<close>

definition haversine_a :: "real \<Rightarrow> real \<Rightarrow> real \<Rightarrow> real \<Rightarrow> real" where
  "haversine_a lat1 lon1 lat2 lon2 =
    (let phi1 = radians lat1;
         phi2 = radians lat2;
         d_phi = radians (lat2 - lat1);
         d_lambda = radians (lon2 - lon1)
     in (sin (d_phi / 2))\<^sup>2 + cos phi1 * cos phi2 * (sin (d_lambda / 2))\<^sup>2)"

definition haversine_distance_m :: "real \<Rightarrow> real \<Rightarrow> real \<Rightarrow> real \<Rightarrow> real" where
  "haversine_distance_m lat1 lon1 lat2 lon2 =
    (let R = 6371000;
         a = haversine_a lat1 lon1 lat2 lon2;
         c = 2 * atan2 (sqrt a) (sqrt (1 - a))
     in R * c)"

text \<open>
  The loop of \<^verbatim>\<open>find_zone_for_point\<close> over a list of zones: the first zone whose
  centre is at most its radius away ends the loop.
\<close>

fun find_zone_in :: "GeofenceZone list \<Rightarrow> real \<Rightarrow> real \<Rightarrow> string option" where
  "find_zone_in [] lat lng = None"
| "find_zone_in (zone # zones) lat lng =
    (let distance = haversine_distance_m lat lng (center_lat zone) (center_lng zone)
     in if distance \<le> radius_m zone then Some (zone_id zone)
        else find_zone_in zones lat lng)"

definition find_zone_for_point :: "real \<Rightarrow> real \<Rightarrow> string option" where
  "find_zone_for_point lat lng = find_zone_in ZONES lat lng"

section \<open>Handlers\<close>

text \<open>
  \<^verbatim>\<open>ingest_location\<close>. The log and the list of generated events are extended
  side by side in each branch, as in the source; the pair \<open>(event_log, generated_events)\<close>
  is what the branches return.
\<close>

definition ingest_location :: "LocationEvent \<Rightarrow> state \<Rightarrow> LocationResponse \<times> state" where
  "ingest_location event s =
    (let vehicle_id = le_vehicleId event;
         lat = latitude event;
         lng = longitude event;
         ts = le_timestamp event;
         current_zone = find_zone_for_point lat lng;
         prev_state = VEHICLE_STATE s vehicle_id;
         prev_zone = (case prev_state of Some st \<Rightarrow> currentZone st | None \<Rightarrow> None);
         (event_log, generated_events) =
           (if prev_zone \<noteq> current_zone then
              (if prev_zone = None \<and> current_zone \<noteq> None then
                 (let event_obj = \<lparr>eventType = ''enter'', vehicleId = vehicle_id,
                        zoneId = the current_zone, timestamp = ts,
                        fromZone = None, toZone = current_zone\<rparr>
                  in (EVENT_LOG s @ [event_obj], [] @ [event_obj]))
               else if prev_zone \<noteq> None \<and> current_zone = None then
                 (let event_obj = \<lparr>eventType = ''exit'', vehicleId = vehicle_id,
                        zoneId = the prev_zone, timestamp = ts,
                        fromZone = prev_zone, toZone = None\<rparr>
                  in (EVENT_LOG s @ [event_obj], [] @ [event_obj]))
               else if prev_zone \<noteq> None \<and> current_zone \<noteq> None then
                 (let exit_event = \<lparr>eventType = ''exit'', vehicleId = vehicle_id,
                        zoneId = the prev_zone, timestamp = ts,
                        fromZone = prev_zone, toZone = current_zone\<rparr>;
                      enter_event = \<lparr>eventType = ''enter'', vehicleId = vehicle_id,
                        zoneId = the current_zone, timestamp = ts,
                        fromZone = prev_zone, toZone = current_zone\<rparr>
                  in (EVENT_LOG s @ [exit_event, enter_event], [] @ [exit_event, enter_event]))
               else (EVENT_LOG s, []))
            else (EVENT_LOG s, []));
         new_state = \<lparr>vs_vehicleId = vehicle_id, currentZone = current_zone,
            lastLatitude = lat, lastLongitude = lng, lastUpdated = ts\<rparr>
     in (\<lparr>status = new_state, generatedEvents = generated_events\<rparr>,
         \<lparr>VEHICLE_STATE = (VEHICLE_STATE s)(vehicle_id \<mapsto> new_state), EVENT_LOG = event_log\<rparr>))"

text \<open>
  \<^verbatim>\<open>get_vehicle_status\<close>: a pydantic model is always truthy, so \<^verbatim>\<open>not state\<close>
  holds exactly when the dictionary has no entry.
\<close>

definition get_vehicle_status :: "string \<Rightarrow> state \<Rightarrow> (http_error + VehicleStatus) \<times> state" where
  "get_vehicle_status vehicle_id s =
    (case VEHICLE_STATE s vehicle_id of
       None \<Rightarrow> (Inl (HTTPException 404 ''Vehicle not found''), s)
     | Some st \<Rightarrow> (Inr st, s))"

text \<open>
  The slice \<^verbatim>\<open>xs[start:]\<close> of Python: a negative start counts from the end, and
  the start is clamped to the list.
\<close>

definition py_slice_from :: "int \<Rightarrow> 'a list \<Rightarrow> 'a list" where
  "py_slice_from start xs =
    (let n = int (length xs);
         i = (if start < 0 then max 0 (start + n) else min start n)
     in drop (nat i) xs)"

text \<open>
  \<^verbatim>\<open>list_events\<close>. Both query parameters may be left out: an absent
  \<^verbatim>\<open>vehicleId\<close> is \<^verbatim>\<open>None\<close>, an absent \<^verbatim>\<open>limit\<close> is 100. The test
  \<^verbatim>\<open>if vehicleId\<close> is Python truthiness: false for \<^verbatim>\<open>None\<close> and for the empty
  string.
\<close>

definition list_events :: "string option \<Rightarrow> int option \<Rightarrow> state \<Rightarrow> ZoneEvent list \<times> state" where
  "list_events vehicleId_arg limit_arg s =
    (let limit = (case limit_arg of None \<Rightarrow> 100 | Some l \<Rightarrow> l);
         events = EVENT_LOG s;
         events = (if vehicleId_arg \<noteq> None \<and> vehicleId_arg \<noteq> Some []
                   then filter (\<lambda>e. vehicleId e = the vehicleId_arg) events
                   else events)
     in (py_slice_from (- limit) events, s))"

text \<open>A sequence of location updates, handled one after the other.\<close>

fun ingest_all :: "LocationEvent list \<Rightarrow> state \<Rightarrow> state" where
  "ingest_all [] s = s"
| "ingest_all (event # events) s = ingest_all events (snd (ingest_location event s))"

section \<open>Notions of the specification\<close>

text \<open>Membership of a point in a circular zone: the test of the loop body.\<close>

definition zone_contains :: "GeofenceZone \<Rightarrow> real \<Rightarrow> real \<Rightarrow> bool" where
  "zone_contains zone lat lng \<longleftrightarrow>
     haversine_distance_m lat lng (center_lat zone) (center_lng zone) \<le> radius_m zone"

text \<open>The previous zone of a vehicle: the zone of its stored status, none without one.\<close>

definition prev_zone_of :: "state \<Rightarrow> string \<Rightarrow> string option" where
  "prev_zone_of s v = (case VEHICLE_STATE s v of None \<Rightarrow> None | Some st \<Rightarrow> currentZone st)"

text \<open>
  The transition rules as the specification words them, by previous and new zone: nothing
  when they agree, one enter, one exit, or exit followed by enter.
\<close>

fun transition_events :: "string option \<Rightarrow> string option \<Rightarrow> string \<Rightarrow> datetime \<Rightarrow> ZoneEvent list" where
  "transition_events None None v ts = []"
| "transition_events None (Some n) v ts =
    [\<lparr>eventType = ''enter'', vehicleId = v, zoneId = n, timestamp = ts,
      fromZone = None, toZone = Some n\<rparr>]"
| "transition_events (Some p) None v ts =
    [\<lparr>eventType = ''exit'', vehicleId = v, zoneId = p, timestamp = ts,
      fromZone = Some p, toZone = None\<rparr>]"
| "transition_events (Some p) (Some n) v ts =
    (if p = n then []
     else [\<lparr>eventType = ''exit'', vehicleId = v, zoneId = p, timestamp = ts,
             fromZone = Some p, toZone = Some n\<rparr>,
           \<lparr>eventType = ''enter'', vehicleId = v, zoneId = n, timestamp = ts,
             fromZone = Some p, toZone = Some n\<rparr>])"

text \<open>The last \<open>n\<close> elements of a list, in their order.\<close>

definition last_n :: "nat \<Rightarrow> 'a list \<Rightarrow> 'a list" where
  "last_n n xs = drop (length xs - n) xs"

text \<open>
  The events a filter selects. An absent filter and the empty string select every event;
  any other string selects the events of that vehicle.
\<close>

definition selected_events :: "string option \<Rightarrow> ZoneEvent list \<Rightarrow> ZoneEvent list" where
  "selected_events vehicleIdFilter events =
    (case vehicleIdFilter of
       None \<Rightarrow> events
     | Some v \<Rightarrow> if v = [] then events else filter (\<lambda>e. vehicleId e = v) events)"

text \<open>Every zone stored for a vehicle is the id of a zone of the catalog.\<close>

definition zone_invariant :: "state \<Rightarrow> bool" where
  "zone_invariant s \<longleftrightarrow>
    (\<forall>v st z. VEHICLE_STATE s v = Some st \<and> currentZone st = Some z
       \<longrightarrow> z \<in> set (map zone_id ZONES))"

subsection \<open>Sample updates\<close>

text \<open>
  Vehicle \<open>V1\<close> at the centre of the airport zone, then at the south pole (far from
  every zone), and vehicle \<open>V2\<close> at the centre of the airport zone.
\<close>

definition update_airport :: LocationEvent where
  "update_airport =
    \<lparr>le_vehicleId = ''V1'', latitude = 12.9611, longitude = 77.6387, le_timestamp = 1\<rparr>"

definition update_pole :: LocationEvent where
  "update_pole = \<lparr>le_vehicleId = ''V1'', latitude = - 90, longitude = 0, le_timestamp = 2\<rparr>"

definition update_other :: LocationEvent where
  "update_other =
    \<lparr>le_vehicleId = ''V2'', latitude = 12.9611, longitude = 77.6387, le_timestamp = 3\<rparr>"

text \<open>A state in which \<open>V1\<close> was last seen in the downtown zone.\<close>

definition state_downtown :: state where
  "state_downtown =
    \<lparr>VEHICLE_STATE = [''V1'' \<mapsto> \<lparr>vs_vehicleId = ''V1'', currentZone = Some ''downtown'',
        lastLatitude = 12.9716, lastLongitude = 77.5946, lastUpdated = 0\<rparr>],
     EVENT_LOG = [\<lparr>eventType = ''enter'', vehicleId = ''V1'', zoneId = ''downtown'',
        timestamp = 0, fromZone = None, toZone = Some ''downtown''\<rparr>]\<rparr>"

section \<open>The distance calculator\<close>

lemma radians_0: "radians 0 = 0"
  by (simp add: radians_def)

lemma radians_diff: "radians (x - y) = radians x - radians y"
  by (simp add: radians_def left_diff_distrib)

lemma haversine_a_self: "haversine_a lat lon lat lon = 0"
  by (simp add: haversine_a_def radians_0)

lemma atan2_0_1: "atan2 0 1 = 0"
  by (simp add: atan2_def)

lemma haversine_distance_self: "haversine_distance_m lat lon lat lon = 0"
  by (simp add: haversine_distance_m_def haversine_a_self atan2_0_1)

text \<open>
  In exact arithmetic the haversine \<open>a\<close> lies between 0 and 1 for all arguments, so
  neither square root of \<^verbatim>\<open>haversine_distance_m\<close> is taken of a negative number. The
  source does not clamp \<open>a\<close>, so its doubles are not held to that range.
\<close>

lemma haversine_a_alt:
  "haversine_a lat1 lon1 lat2 lon2 =
     (1 - cos (radians lat2 - radians lat1)) / 2
     + (cos (radians lat2 - radians lat1) + cos (radians lat1 + radians lat2)) / 2
       * (sin (radians (lon2 - lon1) / 2))\<^sup>2"
proof -
  have s: "(sin (x / 2))\<^sup>2 = (1 - cos x) / 2" for x :: real
    using cos_double_sin [of "x / 2"] by simp
  have c: "cos x * cos y = (cos (y - x) + cos (x + y)) / 2" for x y :: real
    by (simp add: cos_add cos_diff)
  show ?thesis
    unfolding haversine_a_def Let_def radians_diff s [of "radians lat2 - radians lat1"] c
    by simp
qed

lemma haversine_a_range:
  "0 \<le> haversine_a lat1 lon1 lat2 lon2 \<and> haversine_a lat1 lon1 lat2 lon2 \<le> 1"
proof -
  define d where "d = cos (radians lat2 - radians lat1)"
  define e where "e = cos (radians lat1 + radians lat2)"
  define t where "t = (sin (radians (lon2 - lon1) / 2))\<^sup>2"
  have d: "- 1 \<le> d" "d \<le> 1" and e: "- 1 \<le> e" "e \<le> 1"
    by (simp_all add: d_def e_def)
  have t: "0 \<le> t" "t \<le> 1"
    using abs_sin_le_one [of "radians (lon2 - lon1) / 2"]
    by (simp_all add: t_def abs_square_le_1)
  have a: "haversine_a lat1 lon1 lat2 lon2 = (1 - d) / 2 + (d + e) / 2 * t"
    by (simp add: haversine_a_alt d_def e_def t_def)
  have 1: "(1 - t) * d \<le> (1 - t) * 1" "(1 - t) * (- 1) \<le> (1 - t) * d"
    using d t by (intro mult_left_mono; simp)+
  have 2: "t * e \<le> t * 1" "t * (- 1) \<le> t * e"
    using e t by (intro mult_left_mono; simp)+
  have "2 * haversine_a lat1 lon1 lat2 lon2 = 1 - (1 - t) * d + t * e"
    by (simp add: a field_simps)
  with 1 2 show ?thesis by simp
qed

text \<open>
  From the south pole the formula collapses: the distance to a point of latitude
  \<open>lat2\<close> is the arc of \<open>lat2 + 90\<close> degrees, whatever the longitudes.
\<close>

lemma haversine_south_pole:
  assumes "- 90 \<le> lat2" "lat2 < 90"
  shows "haversine_distance_m (- 90) lon1 lat2 lon2 = 6371000 * radians (lat2 + 90)"
proof -
  define th where "th = radians (lat2 + 90) / 2"
  have th: "0 \<le> th" "th < pi / 2"
    using assms by (simp_all add: th_def radians_def)
  have "radians (- 90) = - (pi / 2)"
    by (simp add: radians_def)
  then have a: "haversine_a (- 90) lon1 lat2 lon2 = (sin th)\<^sup>2"
    by (simp add: haversine_a_def th_def)
  have s: "0 \<le> sin th"
    using th by (intro sin_ge_zero) simp_all
  have c: "0 < cos th"
    using th by (intro cos_gt_zero_pi) simp_all
  have "1 - (sin th)\<^sup>2 = (cos th)\<^sup>2"
    using sin_cos_squared_add [of th] by linarith
  then have "atan2 (sqrt ((sin th)\<^sup>2)) (sqrt (1 - (sin th)\<^sup>2)) = arctan (sin th / cos th)"
    using s c by (simp add: atan2_def)
  also have "\<dots> = th"
    using th arctan_tan [of th] by (simp add: tan_def)
  finally show ?thesis
    by (simp add: haversine_distance_m_def a th_def)
qed

lemma haversine_south_pole_far:
  assumes "0 \<le> lat2" "lat2 < 90"
  shows "5000 < haversine_distance_m (- 90) lon1 lat2 lon2"
proof -
  have "1 * 90 \<le> pi * (lat2 + 90)"
    using assms pi_ge_two by (intro mult_mono) simp_all
  then have "5000 < 6371000 * radians (lat2 + 90)"
    by (simp add: radians_def)
  then show ?thesis
    using assms by (simp add: haversine_south_pole)
qed

text \<open>
  \<^bold>\<open>C10.\<close> The distance from a coordinate to itself is exactly 0: the difference of the
  latitudes and of the longitudes is 0, so the haversine \<open>a\<close> is 0, the angle
  \<open>atan2 (sqrt 0) (sqrt 1)\<close> is 0 and so is the product with the radius. It holds for
  every pair of reals, in range or not. Floats being reals here, the statement is about
  the formula in exact arithmetic.
\<close>

theorem haversine_distance_m_same_point:
  "haversine_a lat lon lat lon = 0 \<and> haversine_distance_m lat lon lat lon = 0"
  by (simp add: haversine_a_self haversine_distance_self)

section \<open>The membership resolver\<close>

lemma find_zone_in_find:
  "find_zone_in zones lat lng =
     map_option zone_id (List.find (\<lambda>z. zone_contains z lat lng) zones)"
  by (induction zones) (simp_all add: Let_def zone_contains_def)

lemma find_zone_in_Some_iff:
  "find_zone_in zones lat lng = Some zid \<longleftrightarrow>
     (\<exists>i<length zones. zone_contains (zones ! i) lat lng \<and> zone_id (zones ! i) = zid
        \<and> (\<forall>j<i. \<not> zone_contains (zones ! j) lat lng))"
  unfolding find_zone_in_find by (auto simp: find_Some_iff)

lemma find_zone_in_None_iff:
  "find_zone_in zones lat lng = None \<longleftrightarrow>
     (\<forall>i<length zones. \<not> zone_contains (zones ! i) lat lng)"
  unfolding find_zone_in_find by (auto simp: find_None_iff in_set_conv_nth)

lemma find_zone_in_mem:
  "find_zone_in zones lat lng = Some zid \<Longrightarrow> zid \<in> set (map zone_id zones)"
  by (induction zones) (auto simp: Let_def split: if_splits)

lemma find_zone_airport: "find_zone_for_point 12.9611 77.6387 = Some ''airport''"
  by (simp add: find_zone_for_point_def ZONES_def haversine_distance_self)

lemma find_zone_south_pole: "find_zone_for_point (- 90) 0 = None"
proof -
  have "5000 < haversine_distance_m (- 90) 0 12.9611 77.6387"
    "5000 < haversine_distance_m (- 90) 0 12.9716 77.5946"
    "5000 < haversine_distance_m (- 90) 0 12.9956 77.7000"
    by (rule haversine_south_pole_far; simp)+
  then show ?thesis
    by (simp add: find_zone_for_point_def ZONES_def)
qed

text \<open>
  With distances computed exactly, the resolver returns the id of the first zone of the
  catalog, in declaration order, that contains the point (its centre is at most its
  radius away): the answer is
  \<open>zid\<close> exactly when some position \<open>i\<close> of the catalog holds a zone of that id that
  contains the point while no zone at an earlier position does, and the answer is none
  exactly when no zone of the catalog contains the point.
\<close>

theorem find_zone_for_point_first_match:
  "(find_zone_for_point lat lng = Some zid \<longleftrightarrow>
      (\<exists>i<length ZONES. zone_contains (ZONES ! i) lat lng \<and> zone_id (ZONES ! i) = zid
         \<and> (\<forall>j<i. \<not> zone_contains (ZONES ! j) lat lng)))
   \<and> (find_zone_for_point lat lng = None \<longleftrightarrow>
      (\<forall>i<length ZONES. \<not> zone_contains (ZONES ! i) lat lng))"
  unfolding find_zone_for_point_def
  by (simp only: find_zone_in_Some_iff find_zone_in_None_iff)

theorem find_zone_for_point_first_match_witness:
  "zone_contains (ZONES ! 0) 12.9611 77.6387
   \<and> zone_contains (ZONES ! 1) 12.9716 77.5946
   \<and> find_zone_for_point 12.9611 77.6387 = Some ''airport''
   \<and> find_zone_for_point 12.9716 77.5946 \<noteq> None"
proof -
  have a: "zone_contains (ZONES ! 0) 12.9611 77.6387"
    by (simp add: zone_contains_def ZONES_def haversine_distance_self)
  have d: "zone_contains (ZONES ! 1) 12.9716 77.5946"
    by (simp add: zone_contains_def ZONES_def haversine_distance_self)
  have "\<exists>i<length ZONES. zone_contains (ZONES ! i) 12.9611 77.6387
      \<and> zone_id (ZONES ! i) = ''airport''
      \<and> (\<forall>j<i. \<not> zone_contains (ZONES ! j) 12.9611 77.6387)"
    using a by (intro exI [of _ 0]) (simp add: ZONES_def)
  then have 1: "find_zone_for_point 12.9611 77.6387 = Some ''airport''"
    using find_zone_for_point_first_match [of "12.9611" "77.6387" "''airport''"] by blast
  have "\<not> (\<forall>i<length ZONES. \<not> zone_contains (ZONES ! i) 12.9716 77.5946)"
    using d by (auto simp: ZONES_def)
  then have 2: "find_zone_for_point 12.9716 77.5946 \<noteq> None"
    using find_zone_for_point_first_match [of "12.9716" "77.5946" "''downtown''"] by blast
  show ?thesis
    using a d 1 2 by blast
qed

section \<open>The transition engine\<close>

lemma ingest_location_other:
  "v \<noteq> le_vehicleId event \<Longrightarrow>
     VEHICLE_STATE (snd (ingest_location event s)) v = VEHICLE_STATE s v"
  by (simp add: ingest_location_def Let_def split_def)

lemma ingest_location_entry:
  "VEHICLE_STATE (snd (ingest_location event s)) (le_vehicleId event) =
     Some \<lparr>vs_vehicleId = le_vehicleId event,
           currentZone = find_zone_for_point (latitude event) (longitude event),
           lastLatitude = latitude event, lastLongitude = longitude event,
           lastUpdated = le_timestamp event\<rparr>"
  by (simp add: ingest_location_def Let_def split_def)

lemma ingest_location_events:
  "generatedEvents (fst (ingest_location event s)) =
     transition_events (prev_zone_of s (le_vehicleId event))
       (find_zone_for_point (latitude event) (longitude event))
       (le_vehicleId event) (le_timestamp event)"
  by (cases "prev_zone_of s (le_vehicleId event)";
      cases "find_zone_for_point (latitude event) (longitude event)")
     (simp_all add: ingest_location_def prev_zone_of_def Let_def split_def)

lemma ingest_location_log:
  "EVENT_LOG (snd (ingest_location event s)) =
     EVENT_LOG s @ generatedEvents (fst (ingest_location event s))"
  by (simp add: ingest_location_def Let_def split_def)

lemma length_transition_events: "length (transition_events p n v ts) \<le> 2"
  by (cases p; cases n) simp_all

lemma ingest_all_other:
  "v \<notin> set (map le_vehicleId events) \<Longrightarrow>
     VEHICLE_STATE (ingest_all events s) v = VEHICLE_STATE s v"
  by (induction events arbitrary: s) (simp_all add: ingest_location_other)

lemma prev_zone_of_after:
  "prev_zone_of (snd (ingest_location event s)) (le_vehicleId event) =
     find_zone_for_point (latitude event) (longitude event)"
  by (simp add: prev_zone_of_def ingest_location_entry)

lemma transition_events_same: "transition_events z z v ts = []"
  by (cases z) simp_all

text \<open>
  On an update whose zone is resolved, the events generated are a function of the
  previous zone of the vehicle and of the zone of the new point alone (with the vehicle
  id and the timestamp of the update): none when the two agree, one enter event from
  none, one exit event to none, and an exit followed by an enter, both from the previous
  to the new zone, when both are present and differ. There are never more than two.
\<close>

theorem ingest_location_generated_events:
  "generatedEvents (fst (ingest_location event s)) =
     transition_events (prev_zone_of s (le_vehicleId event))
       (find_zone_for_point (latitude event) (longitude event))
       (le_vehicleId event) (le_timestamp event)
   \<and> length (generatedEvents (fst (ingest_location event s))) \<le> 2"
  by (simp add: ingest_location_events length_transition_events)

theorem ingest_location_generated_events_witness:
  "generatedEvents (fst (ingest_location update_airport state_downtown)) =
     [\<lparr>eventType = ''exit'', vehicleId = ''V1'', zoneId = ''downtown'', timestamp = 1,
        fromZone = Some ''downtown'', toZone = Some ''airport''\<rparr>,
      \<lparr>eventType = ''enter'', vehicleId = ''V1'', zoneId = ''airport'', timestamp = 1,
        fromZone = Some ''downtown'', toZone = Some ''airport''\<rparr>]"
  using ingest_location_generated_events [of update_airport state_downtown] find_zone_airport
  by (simp add: prev_zone_of_def state_downtown_def update_airport_def)

text \<open>
  On an update whose zone is resolved, whatever the state and whatever events the update
  generates, after the call the entry of the vehicle holds the coordinate, the resolved
  zone and the timestamp of the update, and the call answers with that status; a vehicle
  without an entry gets one. (The source writes the entry last, so an update aborted in
  the resolver stores nothing.)
\<close>

theorem ingest_location_overwrites_status:
  "VEHICLE_STATE (snd (ingest_location event s)) (le_vehicleId event) =
     Some \<lparr>vs_vehicleId = le_vehicleId event,
           currentZone = find_zone_for_point (latitude event) (longitude event),
           lastLatitude = latitude event, lastLongitude = longitude event,
           lastUpdated = le_timestamp event\<rparr>
   \<and> VEHICLE_STATE (snd (ingest_location event s)) (le_vehicleId event) =
     Some (status (fst (ingest_location event s)))"
  by (simp add: ingest_location_def Let_def split_def)

theorem ingest_location_overwrites_status_witness:
  "VEHICLE_STATE init_state ''V1'' = None
   \<and> generatedEvents (fst (ingest_location update_pole init_state)) = []
   \<and> VEHICLE_STATE (snd (ingest_location update_pole init_state)) ''V1'' =
     Some \<lparr>vs_vehicleId = ''V1'', currentZone = None, lastLatitude = - 90,
           lastLongitude = 0, lastUpdated = 2\<rparr>"
proof -
  have "generatedEvents (fst (ingest_location update_pole init_state)) = []"
    using find_zone_south_pole
    by (simp add: ingest_location_events prev_zone_of_def init_state_def update_pole_def)
  then show ?thesis
    using ingest_location_overwrites_status [of update_pole init_state] find_zone_south_pole
    by (simp add: init_state_def update_pole_def)
qed

text \<open>
  \<^bold>\<open>C5.\<close> An update repeated after itself generates no event the second time. Updates
  of other vehicles may come in between.
\<close>

theorem ingest_location_repeated:
  assumes "le_vehicleId event \<notin> set (map le_vehicleId others)"
  shows "generatedEvents (fst (ingest_location event
           (ingest_all others (snd (ingest_location event s))))) = []"
proof -
  have "VEHICLE_STATE (ingest_all others (snd (ingest_location event s))) (le_vehicleId event)
      = VEHICLE_STATE (snd (ingest_location event s)) (le_vehicleId event)"
    using assms by (rule ingest_all_other)
  then have "prev_zone_of (ingest_all others (snd (ingest_location event s))) (le_vehicleId event)
      = find_zone_for_point (latitude event) (longitude event)"
    by (simp add: prev_zone_of_def ingest_location_entry)
  then show ?thesis
    by (simp add: ingest_location_events transition_events_same)
qed

theorem ingest_location_repeated_witness:
  "le_vehicleId update_airport \<notin> set (map le_vehicleId [update_other])
   \<and> length (generatedEvents (fst (ingest_location update_airport init_state))) = 1
   \<and> generatedEvents (fst (ingest_location update_airport
        (ingest_all [update_other] (snd (ingest_location update_airport init_state))))) = []"
proof -
  have 1: "le_vehicleId update_airport \<notin> set (map le_vehicleId [update_other])"
    by (simp add: update_airport_def update_other_def)
  have 2: "length (generatedEvents (fst (ingest_location update_airport init_state))) = 1"
    using find_zone_airport
    by (simp add: ingest_location_events prev_zone_of_def init_state_def update_airport_def)
  show ?thesis
    using 1 2 ingest_location_repeated [OF 1, of init_state] by simp
qed

lemma zone_invariant_init: "zone_invariant init_state"
  by (simp add: zone_invariant_def init_state_def)

lemma zone_invariant_ingest_location:
  assumes "zone_invariant s"
  shows "zone_invariant (snd (ingest_location event s))"
  unfolding zone_invariant_def
proof (intro allI impI)
  fix v st z
  assume a: "VEHICLE_STATE (snd (ingest_location event s)) v = Some st \<and> currentZone st = Some z"
  show "z \<in> set (map zone_id ZONES)"
  proof (cases "v = le_vehicleId event")
    case True
    with a have "find_zone_for_point (latitude event) (longitude event) = Some z"
      by (auto simp: ingest_location_entry)
    then show ?thesis
      unfolding find_zone_for_point_def by (rule find_zone_in_mem)
  next
    case False
    with a assms show ?thesis
      unfolding zone_invariant_def by (auto simp: ingest_location_other)
  qed
qed

lemma zone_invariant_ingest_all:
  "zone_invariant s \<Longrightarrow> zone_invariant (ingest_all events s)"
  by (induction events arbitrary: s) (simp_all add: zone_invariant_ingest_location)

text \<open>
  \<^bold>\<open>C6.\<close> Every call of \<^verbatim>\<open>ingest_location\<close> preserves the invariant that a zone
  stored in a vehicle status is the id of a zone of the catalog. (The initial state has
  it, \<open>zone_invariant_init\<close>, and so has every state reached by updates,
  \<open>zone_invariant_ingest_all\<close>.)
\<close>

theorem ingest_location_preserves_zone_invariant:
  "zone_invariant s \<Longrightarrow> zone_invariant (snd (ingest_location event s))"
  by (rule zone_invariant_ingest_location)

theorem ingest_location_preserves_zone_invariant_witness:
  "zone_invariant state_downtown
   \<and> zone_invariant (snd (ingest_location update_airport state_downtown))
   \<and> currentZone (status (fst (ingest_location update_airport state_downtown))) = Some ''airport''"
proof -
  have 1: "zone_invariant state_downtown"
    by (auto simp: zone_invariant_def state_downtown_def ZONES_def split: if_splits)
  have 2: "currentZone (status (fst (ingest_location update_airport state_downtown))) = Some ''airport''"
    using find_zone_airport
    by (simp add: ingest_location_def Let_def split_def update_airport_def)
  show ?thesis
    using 1 2 ingest_location_preserves_zone_invariant [OF 1, of update_airport] by simp
qed

text \<open>
  \<^bold>\<open>C8.\<close> An update of vehicle \<open>v\<close> leaves the entry of every other vehicle as it was,
  and the log afterwards is the log before followed by the events this call generated, in
  their order; so the events already logged stay where they were.
\<close>

theorem ingest_location_frame:
  "(\<forall>v. v \<noteq> le_vehicleId event \<longrightarrow>
       VEHICLE_STATE (snd (ingest_location event s)) v = VEHICLE_STATE s v)
   \<and> EVENT_LOG (snd (ingest_location event s)) =
       EVENT_LOG s @ generatedEvents (fst (ingest_location event s))
   \<and> take (length (EVENT_LOG s)) (EVENT_LOG (snd (ingest_location event s))) = EVENT_LOG s"
  by (simp add: ingest_location_other ingest_location_log)

theorem ingest_location_frame_witness:
  "''V1'' \<noteq> le_vehicleId update_other
   \<and> VEHICLE_STATE (snd (ingest_location update_other state_downtown)) ''V1'' =
       VEHICLE_STATE state_downtown ''V1''
   \<and> VEHICLE_STATE state_downtown ''V1'' \<noteq> None
   \<and> EVENT_LOG (snd (ingest_location update_other state_downtown)) =
       EVENT_LOG state_downtown @
       [\<lparr>eventType = ''enter'', vehicleId = ''V2'', zoneId = ''airport'', timestamp = 3,
         fromZone = None, toZone = Some ''airport''\<rparr>]"
proof -
  have 1: "''V1'' \<noteq> le_vehicleId update_other"
    by (simp add: update_other_def)
  have 2: "generatedEvents (fst (ingest_location update_other state_downtown)) =
      [\<lparr>eventType = ''enter'', vehicleId = ''V2'', zoneId = ''airport'', timestamp = 3,
        fromZone = None, toZone = Some ''airport''\<rparr>]"
    using find_zone_airport
    by (simp add: ingest_location_events prev_zone_of_def state_downtown_def update_other_def)
  have 3: "VEHICLE_STATE state_downtown ''V1'' \<noteq> None"
    by (simp add: state_downtown_def)
  show ?thesis
    using 1 2 3 ingest_location_frame [of update_other state_downtown] by simp
qed

section \<open>The queries\<close>

text \<open>
  \<^bold>\<open>C9.\<close> In a state reached from the initial one by any sequence of updates, the
  status query for a vehicle id that is not among the updates raises the 404 exception,
  and the state after the query is the state before it.
\<close>

theorem get_vehicle_status_never_submitted:
  assumes "vehicle_id \<notin> set (map le_vehicleId events)"
  shows "get_vehicle_status vehicle_id (ingest_all events init_state) =
    (Inl (HTTPException 404 ''Vehicle not found''), ingest_all events init_state)"
  using ingest_all_other [OF assms, of init_state]
  by (simp add: get_vehicle_status_def init_state_def)

theorem get_vehicle_status_never_submitted_witness:
  "''unknown-vehicle'' \<notin> set (map le_vehicleId [update_airport, update_other])
   \<and> fst (get_vehicle_status ''unknown-vehicle''
        (ingest_all [update_airport, update_other] init_state)) =
      Inl (HTTPException 404 ''Vehicle not found'')
   \<and> snd (get_vehicle_status ''unknown-vehicle''
        (ingest_all [update_airport, update_other] init_state)) =
      ingest_all [update_airport, update_other] init_state"
proof -
  have 1: "''unknown-vehicle'' \<notin> set (map le_vehicleId [update_airport, update_other])"
    by (simp add: update_airport_def update_other_def)
  show ?thesis
    using 1 get_vehicle_status_never_submitted [OF 1] by simp
qed

subsection \<open>Listing events\<close>

lemma py_slice_from_negative:
  "0 < n \<Longrightarrow> py_slice_from (- n) xs = drop (length xs - nat n) xs"
  by (auto simp: py_slice_from_def Let_def max_def intro: arg_cong [where f = "\<lambda>k. drop k xs"])

lemma py_slice_from_nonnegative: "0 \<le> k \<Longrightarrow> py_slice_from k xs = drop (nat k) xs"
  by (simp add: py_slice_from_def Let_def min_def)

lemma list_events_selected:
  "fst (list_events filt limit_arg s) =
     py_slice_from (- (case limit_arg of None \<Rightarrow> 100 | Some l \<Rightarrow> l))
       (selected_events filt (EVENT_LOG s))"
  by (cases filt) (simp_all add: list_events_def selected_events_def Let_def)

lemma list_events_state: "snd (list_events filt limit_arg s) = s"
  by (simp add: list_events_def Let_def)

text \<open>
  What the slice does with a limit that is not positive: the limit 0 lists every selected
  event, and a limit \<open>- k\<close> lists all of them but the first \<open>k\<close>.
\<close>

lemma list_events_limit_not_positive:
  "l \<le> 0 \<Longrightarrow>
     fst (list_events filt (Some l) s) = drop (nat (- l)) (selected_events filt (EVENT_LOG s))"
  by (simp add: list_events_selected py_slice_from_nonnegative)

lemma sample_log:
  "EVENT_LOG (ingest_all [update_airport, update_other, update_pole] init_state) =
     [\<lparr>eventType = ''enter'', vehicleId = ''V1'', zoneId = ''airport'', timestamp = 1,
        fromZone = None, toZone = Some ''airport''\<rparr>,
      \<lparr>eventType = ''enter'', vehicleId = ''V2'', zoneId = ''airport'', timestamp = 3,
        fromZone = None, toZone = Some ''airport''\<rparr>,
      \<lparr>eventType = ''exit'', vehicleId = ''V1'', zoneId = ''airport'', timestamp = 2,
        fromZone = Some ''airport'', toZone = None\<rparr>]"
  using find_zone_airport find_zone_south_pole
  by (simp add: ingest_location_def init_state_def update_airport_def update_other_def
      update_pole_def Let_def)

text \<open>
  A long log that updates reach: \<open>V1\<close> going to the airport and to the pole \<open>n\<close>
  times logs \<open>2 * n\<close> events.
\<close>

lemma airport_pole_rounds:
  "prev_zone_of s ''V1'' = None \<Longrightarrow>
     length (EVENT_LOG (ingest_all (concat (replicate n [update_airport, update_pole])) s)) =
       length (EVENT_LOG s) + 2 * n"
proof (induction n arbitrary: s)
  case 0
  show ?case by simp
next
  case (Suc n)
  let ?s1 = "snd (ingest_location update_airport s)"
  let ?s2 = "snd (ingest_location update_pole ?s1)"
  have v: "le_vehicleId update_airport = ''V1''" "le_vehicleId update_pole = ''V1''"
    by (simp_all add: update_airport_def update_pole_def)
  have za: "find_zone_for_point (latitude update_airport) (longitude update_airport) = Some ''airport''"
    using find_zone_airport by (simp add: update_airport_def)
  have zp: "find_zone_for_point (latitude update_pole) (longitude update_pole) = None"
    using find_zone_south_pole by (simp add: update_pole_def)
  have p1: "prev_zone_of ?s1 ''V1'' = Some ''airport''"
    using prev_zone_of_after [of update_airport s] v za by simp
  have p2: "prev_zone_of ?s2 ''V1'' = None"
    using prev_zone_of_after [of update_pole ?s1] v zp by simp
  have l1: "length (EVENT_LOG ?s1) = length (EVENT_LOG s) + 1"
    using Suc.prems by (simp add: ingest_location_log ingest_location_events v za)
  have l2: "length (EVENT_LOG ?s2) = length (EVENT_LOG s) + 2"
    using p1 l1 by (simp add: ingest_location_log ingest_location_events v zp)
  show ?case
    using Suc.IH [OF p2] l2 by simp
qed

text \<open>
  \<^bold>\<open>C7\<close>, as the claim states it, fails for the filter that is the empty string: the
  test \<^verbatim>\<open>if vehicleId\<close> is false for it, nothing is filtered, and the newest event,
  of vehicle \<open>V1\<close>, is listed although its vehicle id is not the filter.
\<close>

theorem list_events_empty_filter_counterexample:
  "map vehicleId (fst (list_events (Some '''') (Some 1)
      (ingest_all [update_airport, update_other, update_pole] init_state))) = [''V1'']"
  by (simp add: list_events_selected py_slice_from_negative selected_events_def sample_log
      del: ingest_all.simps)

text \<open>
  \<^bold>\<open>C7\<close>, amended. For a positive limit \<open>N\<close> the operation lists the last \<open>N\<close> of the
  selected events (all of them when there are fewer), where an absent filter and the
  empty string select the whole log and any other filter selects the events of that
  vehicle. The answer has at most \<open>N\<close> events, is a suffix of the selected events and a
  subsequence of the log (so the order of insertion is kept), holds only events of the
  vehicle when the filter is a non-empty string, and the state is unchanged.
\<close>

theorem list_events_positive_limit:
  assumes "0 < N"
  shows "fst (list_events filt (Some N) s) = last_n (nat N) (selected_events filt (EVENT_LOG s))
    \<and> length (fst (list_events filt (Some N) s)) \<le> nat N
    \<and> suffix (fst (list_events filt (Some N) s)) (selected_events filt (EVENT_LOG s))
    \<and> subseq (fst (list_events filt (Some N) s)) (EVENT_LOG s)
    \<and> (\<forall>v. filt = Some v \<and> v \<noteq> [] \<longrightarrow>
          (\<forall>e \<in> set (fst (list_events filt (Some N) s)). vehicleId e = v))
    \<and> snd (list_events filt (Some N) s) = s"
proof -
  let ?sel = "selected_events filt (EVENT_LOG s)"
  let ?res = "fst (list_events filt (Some N) s)"
  have res: "?res = last_n (nat N) ?sel"
    using assms by (simp add: list_events_selected py_slice_from_negative last_n_def)
  have len: "length ?res \<le> nat N"
    unfolding res by (simp add: last_n_def)
  have suf: "suffix ?res ?sel"
    unfolding res last_n_def by (rule suffix_drop)
  have "subseq ?sel (EVENT_LOG s)"
    by (simp add: selected_events_def split: option.split)
  with suf have sub: "subseq ?res (EVENT_LOG s)"
    by (meson suffix_imp_subseq subseq_order.trans)
  have only: "\<forall>e \<in> set ?res. vehicleId e = v" if "filt = Some v" "v \<noteq> []" for v
  proof
    fix e assume "e \<in> set ?res"
    then have "e \<in> set ?sel"
      using suf set_mono_suffix by blast
    then show "vehicleId e = v"
      using that by (simp add: selected_events_def)
  qed
  show ?thesis
    using res len suf sub only by (simp add: list_events_state)
qed

theorem list_events_positive_limit_witness:
  "(0::int) < 1
   \<and> fst (list_events (Some ''V1'') (Some 1)
        (ingest_all [update_airport, update_other, update_pole] init_state)) =
      [\<lparr>eventType = ''exit'', vehicleId = ''V1'', zoneId = ''airport'', timestamp = 2,
         fromZone = Some ''airport'', toZone = None\<rparr>]
   \<and> fst (list_events None (Some 2)
        (ingest_all [update_airport, update_other, update_pole] init_state)) =
      [\<lparr>eventType = ''enter'', vehicleId = ''V2'', zoneId = ''airport'', timestamp = 3,
         fromZone = None, toZone = Some ''airport''\<rparr>,
       \<lparr>eventType = ''exit'', vehicleId = ''V1'', zoneId = ''airport'', timestamp = 2,
         fromZone = Some ''airport'', toZone = None\<rparr>]"
  using list_events_positive_limit [of 1 "Some ''V1''"
      "ingest_all [update_airport, update_other, update_pole] init_state"]
    list_events_positive_limit [of 2 None
      "ingest_all [update_airport, update_other, update_pole] init_state"]
  by (simp add: sample_log selected_events_def last_n_def del: ingest_all.simps)

text \<open>
  \<^bold>\<open>C3.\<close> A limit that is not positive is not taken for the default 100, and it does
  not bound the answer either: the limit is handed to the slice \<^verbatim>\<open>events[-limit:]\<close>
  as it is. With the limit 0 the slice starts at index 0 and every event is listed, 102
  of them after 51 rounds of \<open>V1\<close>, against the docstring of the handler, by which the
  limit is the number of most recent events returned. With the limit \<open>- 1\<close> the oldest
  event is dropped and the rest is listed, where the limit 100 lists all three events.
\<close>

theorem list_events_nonpositive_limit_lists_more:
  "map eventType (fst (list_events None (Some (- 1))
      (ingest_all [update_airport, update_other, update_pole] init_state))) =
     [''enter'', ''exit'']
   \<and> map eventType (fst (list_events None (Some 100)
      (ingest_all [update_airport, update_other, update_pole] init_state))) =
     [''enter'', ''enter'', ''exit'']
   \<and> length (fst (list_events None (Some 0)
      (ingest_all (concat (replicate 51 [update_airport, update_pole])) init_state))) = 102"
proof -
  let ?s = "ingest_all (concat (replicate 51 [update_airport, update_pole])) init_state"
  have "prev_zone_of init_state ''V1'' = None"
    by (simp add: prev_zone_of_def init_state_def)
  then have "length (EVENT_LOG ?s) = length (EVENT_LOG init_state) + 2 * 51"
    by (rule airport_pole_rounds)
  also have "\<dots> = 102"
    by (simp add: init_state_def)
  finally have "length (EVENT_LOG ?s) = 102" .
  moreover have "fst (list_events None (Some 0) ?s) = EVENT_LOG ?s"
    by (simp only: list_events_limit_not_positive [OF order_refl] selected_events_def
        option.case minus_zero nat_zero_as_int [symmetric] drop_0)
  ultimately have 3: "length (fst (list_events None (Some 0) ?s)) = 102"
    by (simp only:)
  have 1: "map eventType (fst (list_events None (Some (- 1))
      (ingest_all [update_airport, update_other, update_pole] init_state))) = [''enter'', ''exit'']"
    by (simp add: list_events_selected py_slice_from_nonnegative selected_events_def sample_log
        del: ingest_all.simps)
  have 2: "map eventType (fst (list_events None (Some 100)
      (ingest_all [update_airport, update_other, update_pole] init_state))) =
     [''enter'', ''enter'', ''exit'']"
    by (simp add: list_events_selected py_slice_from_negative selected_events_def sample_log
        del: ingest_all.simps)
  show ?thesis
    using 1 2 3 by (simp only: simp_thms)
qed

text \<open>
  With the limit left out the operation is the operation with the limit 100, and it
  lists at most 100 events.
\<close>

lemma list_events_default_limit:
  "list_events filt None s = list_events filt (Some 100) s
   \<and> length (fst (list_events filt None s)) \<le> 100"
proof -
  have "length (py_slice_from (- 100) xs) \<le> 100" for xs :: "ZoneEvent list"
    by (simp add: py_slice_from_negative)
  then show ?thesis
    by (simp add: list_events_def Let_def)
qed

end
